theory Spec2Isabelle
  imports Main "HOL-Library.FSet" "HOL-Library.AList" "HOL-Library.Product_Lexorder"
begin

section \<open>ComPath curation: pairwise pathway similarity\<close>

text \<open>
  A shallow embedding of \<^verbatim>\<open>src/compath_resources/curation.py\<close>.

  Conventions of the model:
  \<^item> a Python \<^verbatim>\<open>set\<close> is an \<open>'g fset\<close> (always finite), \<^verbatim>\<open>len\<close> is \<open>fcard\<close>;
  \<^item> a Python \<^verbatim>\<open>float\<close> is the rational number it denotes, a \<open>rat\<close>; the true
    division \<^verbatim>\<open>/\<close> of two integers is the exact quotient rounded to the nearest binary
    double (\<open>round_to_double\<close> below); there is no NaN and no infinity, which a quotient
    of two set sizes never is;
  \<^item> an exception is the \<open>Inl\<close> branch of a sum;
  \<^item> a \<^verbatim>\<open>dict\<close> that is iterated is an association list in insertion order, and
    \<^verbatim>\<open>d[k] = v\<close> is \<open>AList.update k v d\<close> (replace in place, or append);
    a \<^verbatim>\<open>dict\<close> that is only read is a map.
\<close>

subsection \<open>Errors\<close>

text \<open>
  \<open>ZeroDivisionError\<close> and \<open>KeyError\<close> are the two exceptions the source can raise
  on its own. \<open>InvalidInput\<close> is the error named by the specification for an empty gene
  set; no path of the source raises it.
\<close>

datatype error = ZeroDivisionError | KeyError | InvalidInput

subsection \<open>Binary doubles\<close>

text \<open>
  CPython computes \<^verbatim>\<open>a / b\<close> for integers as the exact quotient, correctly rounded to
  an IEEE 754 double: a significand of 53 bits, round to nearest, ties to even, and a
  fixed spacing of \<open>2 powi (- 1074)\<close> below \<open>2 powi (- 1022)\<close>. Overflow is left out: the
  only division of the source has a quotient between 0 and 1.

  \<open>bit_length\<close> is \<^verbatim>\<open>int.bit_length\<close>; \<open>binary_exponent x\<close> is the \<open>e\<close> with
  \<open>2 powi e \<le> x < 2 powi (e + 1)\<close> for positive \<open>x\<close>.
\<close>

fun bit_length :: "nat \<Rightarrow> nat" where
  "bit_length n = (if n = 0 then 0 else Suc (bit_length (n div 2)))"

declare bit_length.simps [simp del]

definition binary_exponent :: "rat \<Rightarrow> int" where
  "binary_exponent x =
     (case quotient_of x of (a, b) \<Rightarrow>
        let k = int (bit_length (nat a)) - int (bit_length (nat b))
        in if 2 powi k \<le> x then k else k - 1)"

definition round_half_even :: "rat \<Rightarrow> int" where
  "round_half_even y =
     (let n = \<lfloor>y\<rfloor>; d = y - of_int n
      in if d < 1 / 2 then n else if 1 / 2 < d then n + 1 else if even n then n else n + 1)"

definition round_to_double :: "rat \<Rightarrow> rat" where
  "round_to_double x =
     (if x = 0 then 0
      else let ulp = 2 powi (max (binary_exponent \<bar>x\<bar>) (- 1022) - 52)
           in of_int (round_half_even (x / ulp)) * ulp)"

subsection \<open>The overlap scorer\<close>

text \<open>
  \<^verbatim>\<open>
  def calculate_jaccard(set_1, set_2):
      intersection = len(set_1.intersection(set_2))
      smaller_set = min(len(set_1), len(set_2))
      return intersection / smaller_set
  \<close>
\<close>

definition calculate_jaccard :: "'g fset \<Rightarrow> 'g fset \<Rightarrow> error + rat" where
  "calculate_jaccard set_1 set_2 =
     (let intersection = fcard (set_1 |\<inter>| set_2);
          smaller_set = min (fcard set_1) (fcard set_2)
      in if smaller_set = 0 then Inl ZeroDivisionError
         else Inr (round_to_double (of_nat intersection / of_nat smaller_set)))"

subsection \<open>Data\<close>

text \<open>
  A score row is the tuple appended at lines 59 to 63:
  \<^verbatim>\<open>(a_pathway_id, a_name, b_pathway_id, b_name, gene_similarity, string_similarity)\<close>.
  A \<^verbatim>\<open>pandas.DataFrame\<close> is its column names and its rows, in order. Pathway
  identifiers are any type with a total order (pandas compares them to sort).
\<close>

type_synonym 'p row = "'p \<times> string \<times> 'p \<times> string \<times> rat \<times> rat"

record 'p dataframe =
  df_columns :: "string list"
  df_rows :: "'p row list"

text \<open>
  The file system holds the directories created and, for every path written, the table
  written there last. Failures of the file system itself are not modelled.
\<close>

record 'p filesystem =
  directories :: "string set"
  files :: "string \<rightharpoonup> 'p dataframe"

text \<open>
  A ComPath manager, as far as the source uses it: \<^verbatim>\<open>is_populated()\<close>,
  \<^verbatim>\<open>get_pathway_id_to_symbols()\<close> (a dict from pathway identifier to a set of gene
  symbols, iterated later, hence in insertion order) and
  \<^verbatim>\<open>get_pathway_id_name_mapping()\<close> (a dict that is only read).
  The registry \<^verbatim>\<open>get_compath_manager_classes()\<close> of \<^verbatim>\<open>bio2bel\<close> is outside the
  repository: its items are a parameter of the model.
\<close>

record ('p, 'g) manager =
  is_populated :: bool
  get_pathway_id_to_symbols :: "('p \<times> 'g fset) list"
  get_pathway_id_name_mapping :: "'p \<rightharpoonup> string"

type_synonym ('p, 'g) database = "(string \<times> ('p \<times> 'g fset) list) list"
type_synonym 'p mappings = "(string \<times> ('p \<rightharpoonup> string)) list"
type_synonym 'p reports = "((string \<times> string) \<times> 'p dataframe) list"

subsection \<open>Library calls\<close>

text \<open>\<^verbatim>\<open>os.makedirs(directory, exist_ok=True)\<close>\<close>

definition makedirs :: "string \<Rightarrow> 'p filesystem \<Rightarrow> 'p filesystem" where
  "makedirs directory fs = fs\<lparr>directories := insert directory (directories fs)\<rparr>"

text \<open>\<^verbatim>\<open>os.path.join(a, b)\<close> of \<^verbatim>\<open>posixpath\<close>, for two components.\<close>

definition path_join :: "string \<Rightarrow> string \<Rightarrow> string" where
  "path_join a b =
     (if take 1 b = ''/'' then b
      else if a = [] \<or> last a = CHR ''/'' then a @ b
      else a @ ''/'' @ b)"

text \<open>\<^verbatim>\<open>df.to_csv(path, sep='\t', index=False)\<close>: the file at \<open>path\<close> is replaced.\<close>

definition to_csv :: "string \<Rightarrow> 'p dataframe \<Rightarrow> 'p filesystem \<Rightarrow> 'p filesystem" where
  "to_csv path df fs = fs\<lparr>files := (files fs)(path \<mapsto> df)\<rparr>"

text \<open>
  \<^verbatim>\<open>df.sort_values([f'{a_name}_id', 'gene_set_similarity'], ascending=False)\<close>:
  the rows in descending order of the pair (first pathway identifier, gene set
  similarity). pandas sorts several keys with a stable lexicographic sort, so rows with
  equal keys keep their order; reversing before and after an ascending stable sort does
  that.
\<close>

definition row_key :: "'p row \<Rightarrow> 'p \<times> rat" where
  "row_key r = (case r of (a_id, a_nm, b_id, b_nm, gene_similarity, string_similarity) \<Rightarrow>
     (a_id, gene_similarity))"

definition sort_values :: "('p::linorder) dataframe \<Rightarrow> 'p dataframe" where
  "sort_values df = df\<lparr>df_rows := rev (sort_key row_key (rev (df_rows df)))\<rparr>"

text \<open>\<^verbatim>\<open>itertools.combinations(xs, r=2)\<close>\<close>

fun combinations2 :: "'a list \<Rightarrow> ('a \<times> 'a) list" where
  "combinations2 [] = []"
| "combinations2 (x # xs) = map (Pair x) xs @ combinations2 xs"

subsection \<open>The similarity engine\<close>

text \<open>
  Lines 31 to 39: the managers that are populated fill the two dicts \<^verbatim>\<open>database\<close> and
  \<^verbatim>\<open>mappings\<close>.
\<close>

fun load_managers ::
  "(string \<times> ('p, 'g) manager) list \<Rightarrow> ('p, 'g) database \<Rightarrow> 'p mappings \<Rightarrow>
   ('p, 'g) database \<times> 'p mappings" where
  "load_managers [] database mappings = (database, mappings)"
| "load_managers ((name, manager) # rest) database mappings =
     (if \<not> is_populated manager then load_managers rest database mappings
      else load_managers rest
             (AList.update name (get_pathway_id_to_symbols manager) database)
             (AList.update name (get_pathway_id_name_mapping manager) mappings))"

text \<open>
  Lines 50 to 63, the body of the inner loop for one element of the cross product:
  an exception, no row (\<^verbatim>\<open>continue\<close>), or the row to append. The string scorer
  \<^verbatim>\<open>SequenceMatcher(None, a, b).ratio()\<close> of \<^verbatim>\<open>difflib\<close> is the parameter \<open>ratio\<close>.
\<close>

definition score_row ::
  "(string \<Rightarrow> string \<Rightarrow> rat) \<Rightarrow> rat \<Rightarrow> rat \<Rightarrow> string \<Rightarrow> string \<Rightarrow>
   ('p \<rightharpoonup> string) \<Rightarrow> ('p \<rightharpoonup> string) \<Rightarrow>
   ('p \<times> 'g fset) \<times> ('p \<times> 'g fset) \<Rightarrow> error + 'p row option" where
  "score_row ratio minimum_gene_set_similarity minimum_string_similarity a_name b_name
     a_mappings b_mappings item =
     (case item of ((a_pathway_id, a_set), (b_pathway_id, b_set)) \<Rightarrow>
        (case calculate_jaccard a_set b_set of
           Inl e \<Rightarrow> Inl e
         | Inr gene_similarity \<Rightarrow>
             if gene_similarity < minimum_gene_set_similarity then Inr None
             else
               let string_similarity = ratio a_name b_name in
               if string_similarity < minimum_string_similarity then Inr None
               else
                 (case a_mappings a_pathway_id of
                    None \<Rightarrow> Inl KeyError
                  | Some a_nm \<Rightarrow>
                      (case b_mappings b_pathway_id of
                         None \<Rightarrow> Inl KeyError
                       | Some b_nm \<Rightarrow>
                           Inr (Some (a_pathway_id, a_nm, b_pathway_id, b_nm,
                                      gene_similarity, string_similarity))))))"

text \<open>Lines 46 to 63: the inner loop, appending to \<^verbatim>\<open>rows\<close>.\<close>

fun collect_rows :: "('x \<Rightarrow> error + 'r option) \<Rightarrow> 'x list \<Rightarrow> 'r list \<Rightarrow> error + 'r list" where
  "collect_rows body [] rows = Inr rows"
| "collect_rows body (item # it) rows =
     (case body item of
        Inl e \<Rightarrow> Inl e
      | Inr None \<Rightarrow> collect_rows body it rows
      | Inr (Some r) \<Rightarrow> collect_rows body it (rows @ [r]))"

text \<open>Lines 44 to 69: the sorted table of one comparison pair.\<close>

definition similarity_report ::
  "(string \<Rightarrow> string \<Rightarrow> rat) \<Rightarrow> rat \<Rightarrow> rat \<Rightarrow> 'p mappings \<Rightarrow>
   string \<times> ('p \<times> 'g fset) list \<Rightarrow> string \<times> ('p \<times> 'g fset) list \<Rightarrow>
   error + ('p::linorder) dataframe" where
  "similarity_report ratio minimum_gene_set_similarity minimum_string_similarity mappings a b =
     (case (a, b) of ((a_name, a_sets), (b_name, b_sets)) \<Rightarrow>
        (case map_of mappings a_name of
           None \<Rightarrow> Inl KeyError
         | Some a_mappings \<Rightarrow>
             (case map_of mappings b_name of
                None \<Rightarrow> Inl KeyError
              | Some b_mappings \<Rightarrow>
                  (case collect_rows
                          (score_row ratio minimum_gene_set_similarity minimum_string_similarity
                             a_name b_name a_mappings b_mappings)
                          (List.product a_sets b_sets) [] of
                     Inl e \<Rightarrow> Inl e
                   | Inr rows \<Rightarrow>
                       Inr (sort_values
                              \<lparr>df_columns = [a_name @ ''_id'', a_name @ ''_name'',
                                           b_name @ ''_id'', b_name @ ''_name'',
                                           ''gene_set_similarity'', ''string_similarity''],
                               df_rows = rows\<rparr>)))))"

text \<open>
  Lines 42 to 72: the loop over the comparison pairs. Each pair that is computed enters
  \<^verbatim>\<open>rv\<close> and is written to its file before the next pair starts; an exception leaves
  the loop with the file system as it is then.
\<close>

fun pairs_loop ::
  "(string \<Rightarrow> string \<Rightarrow> rat) \<Rightarrow> string \<Rightarrow> rat \<Rightarrow> rat \<Rightarrow> 'p mappings \<Rightarrow>
   ((string \<times> ('p \<times> 'g fset) list) \<times> (string \<times> ('p \<times> 'g fset) list)) list \<Rightarrow>
   'p filesystem \<Rightarrow> 'p reports \<Rightarrow> 'p filesystem \<times> (error + ('p::linorder) reports)" where
  "pairs_loop ratio directory mg ms mappings [] fs rv = (fs, Inr rv)"
| "pairs_loop ratio directory mg ms mappings ((a, b) # rest) fs rv =
     (case similarity_report ratio mg ms mappings a b of
        Inl e \<Rightarrow> (fs, Inl e)
      | Inr df \<Rightarrow>
          pairs_loop ratio directory mg ms mappings rest
            (to_csv (path_join directory (fst a @ ''_'' @ fst b @ ''.tsv'')) df fs)
            (AList.update (fst a, fst b) df rv))"

text \<open>
  \<^verbatim>\<open>make_similarity_matricies(directory, minimum_gene_set_similarity,
  minimum_string_similarity)\<close>, with the string scorer, the items of the manager registry
  and the file system it starts from as further arguments. It returns the file system it
  leaves and either the exception raised or the dict \<^verbatim>\<open>rv\<close>.
\<close>

definition make_similarity_matricies ::
  "(string \<Rightarrow> string \<Rightarrow> rat) \<Rightarrow> (string \<times> ('p, 'g) manager) list \<Rightarrow> 'p filesystem \<Rightarrow>
   string \<Rightarrow> rat \<Rightarrow> rat \<Rightarrow> 'p filesystem \<times> (error + ('p::linorder) reports)" where
  "make_similarity_matricies ratio managers fs directory minimum_gene_set_similarity
     minimum_string_similarity =
     (case load_managers managers [] [] of (database, mappings) \<Rightarrow>
        pairs_loop ratio directory minimum_gene_set_similarity minimum_string_similarity
          mappings (combinations2 database) (makedirs directory fs) [])"

subsection \<open>The order of a report\<close>

text \<open>
  \<open>row_ge r1 r2\<close>: row \<open>r1\<close> may stand before row \<open>r2\<close> in a report, that is, \<open>r1\<close>
  is greater or equal in the lexicographic order on (first pathway identifier, gene set
  similarity).
\<close>

definition row_ge :: "('p::linorder) row \<Rightarrow> 'p row \<Rightarrow> bool" where
  "row_ge r1 r2 =
     (case (r1, r2) of ((a_id1, a_nm1, b_id1, b_nm1, g1, s1), (a_id2, a_nm2, b_id2, b_nm2, g2, s2)) \<Rightarrow>
        a_id2 < a_id1 \<or> (a_id2 = a_id1 \<and> g2 \<le> g1))"

subsection \<open>Example inputs\<close>

text \<open>
  Concrete inputs on which the theorems below are run. The string scorer of the examples
  is 1 on equal names and 0 otherwise, which is what \<^verbatim>\<open>SequenceMatcher.ratio\<close> gives on
  names of one letter. Source \<open>Z\<close> is not populated; pathway 3 of \<open>Y\<close> has no display
  name; the only gene set of \<open>V\<close> is empty.
\<close>

definition example_ratio :: "string \<Rightarrow> string \<Rightarrow> rat" where
  "example_ratio a b = (if a = b then 1 else 0)"

definition example_fs :: "nat filesystem" where
  "example_fs = \<lparr>directories = {}, files = Map.empty\<rparr>"

definition source_X :: "(nat, nat) manager" where
  "source_X = \<lparr>is_populated = True,
     get_pathway_id_to_symbols = [(1, {|1, 2|}), (2, {|1, 2, 3|})],
     get_pathway_id_name_mapping = [1 \<mapsto> ''x1'', 2 \<mapsto> ''x2'']\<rparr>"

definition source_Y :: "(nat, nat) manager" where
  "source_Y = \<lparr>is_populated = True,
     get_pathway_id_to_symbols = [(1, {|1, 2|}), (2, {|1, 2, 5, 6|}), (3, {|7, 8|})],
     get_pathway_id_name_mapping = [1 \<mapsto> ''y1'', 2 \<mapsto> ''y2'']\<rparr>"

definition source_Z :: "(nat, nat) manager" where
  "source_Z = \<lparr>is_populated = False,
     get_pathway_id_to_symbols = [],
     get_pathway_id_name_mapping = Map.empty\<rparr>"

definition source_W :: "(nat, nat) manager" where
  "source_W = \<lparr>is_populated = True,
     get_pathway_id_to_symbols = [(1, {|1|})],
     get_pathway_id_name_mapping = [1 \<mapsto> ''w1'']\<rparr>"

definition source_V :: "(nat, nat) manager" where
  "source_V = \<lparr>is_populated = True,
     get_pathway_id_to_symbols = [(1, {||})],
     get_pathway_id_name_mapping = [1 \<mapsto> ''v1'']\<rparr>"

definition example_managers :: "(string \<times> (nat, nat) manager) list" where
  "example_managers = [(''X'', source_X), (''Z'', source_Z), (''Y'', source_Y), (''W'', source_W)]"

definition failing_managers :: "(string \<times> (nat, nat) manager) list" where
  "failing_managers = [(''X'', source_X), (''Y'', source_Y), (''V'', source_V)]"

text \<open>
  The reports of \<open>example_managers\<close> at the thresholds 1/2 and 0, as the run below
  computes them. The score of pathway 2 of \<open>X\<close> with pathway 2 of \<open>Y\<close> is the double
  nearest to 2/3, which Python prints as \<^verbatim>\<open>0.6666666666666666\<close>.
\<close>

definition example_reports :: "nat reports" where
  "example_reports =
     [((''X'', ''Y''),
       \<lparr>df_columns = [''X_id'', ''X_name'', ''Y_id'', ''Y_name'',
                      ''gene_set_similarity'', ''string_similarity''],
        df_rows = [(2, ''x2'', 1, ''y1'', 1, 0),
                   (2, ''x2'', 2, ''y2'', 6004799503160661 / 9007199254740992, 0),
                   (1, ''x1'', 1, ''y1'', 1, 0), (1, ''x1'', 2, ''y2'', 1, 0)]\<rparr>),
      ((''X'', ''W''),
       \<lparr>df_columns = [''X_id'', ''X_name'', ''W_id'', ''W_name'',
                      ''gene_set_similarity'', ''string_similarity''],
        df_rows = [(2, ''x2'', 1, ''w1'', 1, 0), (1, ''x1'', 1, ''w1'', 1, 0)]\<rparr>),
      ((''Y'', ''W''),
       \<lparr>df_columns = [''Y_id'', ''Y_name'', ''W_id'', ''W_name'',
                      ''gene_set_similarity'', ''string_similarity''],
        df_rows = [(2, ''y2'', 1, ''w1'', 1, 0), (1, ''y1'', 1, ''w1'', 1, 0)]\<rparr>)]"

section \<open>Properties of the rounding\<close>

lemma bit_length_bounds:
  "0 < n \<Longrightarrow> 2 ^ (bit_length n - 1) \<le> n \<and> n < 2 ^ bit_length n"
proof (induction n rule: bit_length.induct)
  case (1 n)
  show ?case
  proof (cases "n div 2 = 0")
    case True
    with "1.prems" have "n = 1" by auto
    then show ?thesis by (simp add: bit_length.simps)
  next
    case False
    let ?l = "bit_length (n div 2)"
    from False "1.prems" "1.IH" have IH: "2 ^ (?l - 1) \<le> n div 2" "n div 2 < 2 ^ ?l"
      by simp_all
    from False have "?l \<noteq> 0" by (simp add: bit_length.simps [of "n div 2"])
    then have "(2::nat) ^ ?l = 2 * 2 ^ (?l - 1)" by (cases ?l) simp_all
    with IH(1) have lower: "2 ^ ?l \<le> n" by linarith
    from IH(2) have upper: "n < 2 * 2 ^ ?l" by linarith
    from "1.prems" have "bit_length n = Suc ?l" by (simp add: bit_length.simps [of n])
    with lower upper show ?thesis by simp
  qed
qed

lemma binary_exponent_le:
  assumes "0 < x"
  shows "2 powi (binary_exponent x) \<le> x"
proof -
  obtain a b where q: "quotient_of x = (a, b)" by (cases "quotient_of x")
  then have b: "0 < b" and x: "x = of_int a / of_int b"
    by (rule quotient_of_denom_pos, rule quotient_of_div)
  from assms x b have a: "0 < a" by (simp add: zero_less_divide_iff)
  let ?la = "bit_length (nat a)" and ?lb = "bit_length (nat b)"
  let ?k = "int ?la - int ?lb"
  show ?thesis
  proof (cases "2 powi ?k \<le> x")
    case True
    with q show ?thesis by (simp add: binary_exponent_def Let_def)
  next
    case False
    from a bit_length_bounds [of "nat a"] have "2 ^ (?la - 1) \<le> nat a" by simp
    then have "int (2 ^ (?la - 1)) \<le> a" using a by linarith
    then have la: "(2::rat) ^ (?la - 1) \<le> of_int a"
      by (metis of_int_le_iff of_int_of_nat_eq of_nat_numeral of_nat_power)
    from b bit_length_bounds [of "nat b"] have "nat b < 2 ^ ?lb" by simp
    then have "b < int (2 ^ ?lb)" using b by linarith
    then have lb: "of_int b < (2::rat) ^ ?lb"
      by (metis of_int_less_iff of_int_of_nat_eq of_nat_numeral of_nat_power)
    from a have "?la \<noteq> 0" by (simp add: bit_length.simps [of "nat a"])
    then have "?k - 1 = int (?la - 1) - int ?lb" by simp
    then have "(2::rat) powi (?k - 1) = 2 powi (int (?la - 1) - int ?lb)"
      by (simp only:)
    also have "\<dots> = 2 powi int (?la - 1) / 2 powi int ?lb"
      by (rule power_int_diff) simp
    also have "\<dots> = 2 ^ (?la - 1) / 2 ^ ?lb"
      by (simp only: power_int_of_nat)
    also have "\<dots> \<le> of_int a / 2 ^ ?lb"
      using la by (simp add: divide_right_mono)
    also have "\<dots> \<le> of_int a / of_int b"
      using lb a b by (simp add: frac_le)
    finally have "(2::rat) powi (?k - 1) \<le> x" using x by simp
    with False q show ?thesis by (simp add: binary_exponent_def Let_def)
  qed
qed

lemma binary_exponent_less:
  assumes "0 < x"
  shows "x < 2 powi (binary_exponent x + 1)"
proof -
  obtain a b where q: "quotient_of x = (a, b)" by (cases "quotient_of x")
  then have b: "0 < b" and x: "x = of_int a / of_int b"
    by (rule quotient_of_denom_pos, rule quotient_of_div)
  from assms x b have a: "0 < a" by (simp add: zero_less_divide_iff)
  let ?la = "bit_length (nat a)" and ?lb = "bit_length (nat b)"
  let ?k = "int ?la - int ?lb"
  show ?thesis
  proof (cases "2 powi ?k \<le> x")
    case False
    with q show ?thesis by (simp add: binary_exponent_def Let_def)
  next
    case True
    from a bit_length_bounds [of "nat a"] have "nat a < 2 ^ ?la" by simp
    then have "a < int (2 ^ ?la)" using a by linarith
    then have la: "of_int a < (2::rat) ^ ?la"
      by (metis of_int_less_iff of_int_of_nat_eq of_nat_numeral of_nat_power)
    from b bit_length_bounds [of "nat b"] have "2 ^ (?lb - 1) \<le> nat b" by simp
    then have "int (2 ^ (?lb - 1)) \<le> b" using b by linarith
    then have lb: "(2::rat) ^ (?lb - 1) \<le> of_int b"
      by (metis of_int_le_iff of_int_of_nat_eq of_nat_numeral of_nat_power)
    from b have "?lb \<noteq> 0" by (simp add: bit_length.simps [of "nat b"])
    then have "?k + 1 = int ?la - int (?lb - 1)" by simp
    then have "(2::rat) powi (?k + 1) = 2 powi (int ?la - int (?lb - 1))"
      by (simp only:)
    also have "\<dots> = 2 powi int ?la / 2 powi int (?lb - 1)"
      by (rule power_int_diff) simp
    also have "\<dots> = 2 ^ ?la / 2 ^ (?lb - 1)"
      by (simp only: power_int_of_nat)
    finally have eq: "(2::rat) powi (?k + 1) = 2 ^ ?la / 2 ^ (?lb - 1)" .
    have "of_int a / of_int b \<le> of_int a / (2::rat) ^ (?lb - 1)"
      using lb a by (simp add: frac_le)
    also have "\<dots> < 2 ^ ?la / 2 ^ (?lb - 1)"
      using la by (simp add: divide_strict_right_mono)
    finally have "x < 2 powi (?k + 1)" using x eq by simp
    with True q show ?thesis by (simp add: binary_exponent_def Let_def)
  qed
qed

lemma round_half_even_error: "\<bar>of_int (round_half_even y) - y\<bar> \<le> 1 / 2"
proof -
  have "of_int \<lfloor>y\<rfloor> \<le> y" "y < of_int \<lfloor>y\<rfloor> + 1" by linarith+
  then show ?thesis
    by (auto simp: round_half_even_def Let_def)
qed

lemma round_to_double_error:
  assumes "0 < x" and "x < 1"
  shows "\<bar>round_to_double x - x\<bar> \<le> 1 / 2 ^ 54"
proof -
  let ?e = "binary_exponent \<bar>x\<bar>"
  let ?ulp = "(2::rat) powi (max ?e (- 1022) - 52)"
  from assms binary_exponent_le [of x] have "(2::rat) powi ?e < 1" by simp
  have "?e < 0"
  proof (rule ccontr)
    assume "\<not> ?e < 0"
    then have "0 \<le> ?e" by simp
    then have "1 \<le> (2::rat) powi ?e" by (intro one_le_power_int) simp_all
    with \<open>(2::rat) powi ?e < 1\<close> show False by simp
  qed
  then have "max ?e (- 1022) - 52 \<le> - 53" by simp
  then have "?ulp \<le> 2 powi (- 53)"
    by (rule power_int_increasing) simp
  then have ulp_le: "?ulp \<le> 1 / 2 ^ 53" by (simp add: power_int_minus_divide)
  have ulp_pos: "0 < ?ulp" by simp
  from assms have r: "round_to_double x = of_int (round_half_even (x / ?ulp)) * ?ulp"
    by (simp add: round_to_double_def Let_def)
  have "round_to_double x - x = (of_int (round_half_even (x / ?ulp)) - x / ?ulp) * ?ulp"
    using ulp_pos unfolding r by (simp add: algebra_simps)
  then have "\<bar>round_to_double x - x\<bar> = \<bar>of_int (round_half_even (x / ?ulp)) - x / ?ulp\<bar> * ?ulp"
    using ulp_pos by (simp add: abs_mult)
  also have "\<dots> \<le> (1 / 2) * ?ulp"
    using round_half_even_error [of "x / ?ulp"] ulp_pos by (simp add: mult_right_mono)
  also have "\<dots> \<le> (1 / 2) * (1 / 2 ^ 53)"
    using ulp_le by simp
  also have "\<dots> = 1 / 2 ^ 54" by simp
  finally show ?thesis .
qed

text \<open>The doubles that the examples meet.\<close>

lemma round_to_double_0: "round_to_double 0 = 0"
  by (simp add: round_to_double_def)

lemma round_to_double_1: "round_to_double 1 = 1"
  by code_simp

lemma round_to_double_half: "round_to_double (1 / 2) = 1 / 2"
  by code_simp

lemma round_to_double_third: "round_to_double (1 / 3) = 6004799503160661 / 18014398509481984"
  by code_simp

lemma round_to_double_two_thirds: "round_to_double (2 / 3) = 6004799503160661 / 9007199254740992"
  by code_simp

lemmas round_eval = round_to_double_0 round_to_double_1 round_to_double_half
  round_to_double_third round_to_double_two_thirds

section \<open>Properties of the overlap scorer\<close>

lemmas fcard_eval = fcard_fempty fcard_finsert_if

lemma min_nat_zero_iff: "min a b = 0 \<longleftrightarrow> a = 0 \<or> b = 0" for a b :: nat
  by (auto simp: min_def)

lemma smaller_set_zero_iff:
  "min (fcard s1) (fcard s2) = 0 \<longleftrightarrow> s1 = {||} \<or> s2 = {||}"
  using min_nat_zero_iff [of "fcard s1" "fcard s2"] by simp

lemma calculate_jaccard_error: "calculate_jaccard s1 s2 = Inl e \<Longrightarrow> e = ZeroDivisionError"
  by (auto simp: calculate_jaccard_def Let_def split: if_splits)

lemma intersection_le_smaller_set:
  "fcard (s1 |\<inter>| s2) \<le> min (fcard s1) (fcard s2)"
  by (simp add: fcard_mono)

text \<open>
  C1 (as the code has it). For non-empty finite sets the overlap score is the size of
  the intersection divided by the smaller of the two sizes, rounded to the nearest
  binary double; it is within \<open>1 / 2 ^ 54\<close> of the exact quotient.
\<close>

theorem calculate_jaccard_rounded_quotient:
  assumes "s1 \<noteq> {||}" and "s2 \<noteq> {||}"
  shows "calculate_jaccard s1 s2 =
      Inr (round_to_double
             (rat_of_nat (fcard (s1 |\<inter>| s2)) / rat_of_nat (min (fcard s1) (fcard s2)))) \<and>
    \<bar>round_to_double
       (rat_of_nat (fcard (s1 |\<inter>| s2)) / rat_of_nat (min (fcard s1) (fcard s2)))
     - rat_of_nat (fcard (s1 |\<inter>| s2)) / rat_of_nat (min (fcard s1) (fcard s2))\<bar>
      \<le> 1 / 2 ^ 54"
proof -
  let ?i = "fcard (s1 |\<inter>| s2)" and ?m = "min (fcard s1) (fcard s2)"
  let ?q = "rat_of_nat ?i / rat_of_nat ?m"
  from assms have m: "?m \<noteq> 0" by (simp add: smaller_set_zero_iff)
  then have score: "calculate_jaccard s1 s2 = Inr (round_to_double ?q)"
    by (simp add: calculate_jaccard_def Let_def)
  have le: "?i \<le> ?m" by (rule intersection_le_smaller_set)
  have "\<bar>round_to_double ?q - ?q\<bar> \<le> 1 / 2 ^ 54"
  proof -
    consider "?i = 0" | "?i = ?m" | "0 < ?i" "?i < ?m"
      using le by linarith
    then show ?thesis
    proof cases
      case 1
      then have "?q = 0" by simp
      then show ?thesis by (simp only: round_to_double_0) simp
    next
      case 2
      with m have "?q = 1" by simp
      then show ?thesis by (simp only: round_to_double_1) simp
    next
      case 3
      then have "0 < ?q" "?q < 1" by simp_all
      then show ?thesis by (rule round_to_double_error)
    qed
  qed
  with score show ?thesis by simp
qed

theorem calculate_jaccard_rounded_quotient_witness:
  "{|1, 2, 3::nat|} \<noteq> {||} \<and> {|1, 4, 5::nat|} \<noteq> {||} \<and>
   calculate_jaccard {|1, 2, 3|} {|1, 4, 5::nat|} = Inr (6004799503160661 / 18014398509481984) \<and>
   \<bar>6004799503160661 / 18014398509481984 - 1 / 3\<bar> \<le> (1 / 2 ^ 54 :: rat)"
  using calculate_jaccard_rounded_quotient [of "{|1, 2, 3|}" "{|1, 4, 5::nat|}"]
  by (simp add: fcard_eval round_eval)

text \<open>
  C1, as the specification words it, fails: the score of two sets that share one of
  three elements is the double nearest to 1/3, which Python prints as
  \<^verbatim>\<open>0.3333333333333333\<close>, and not the rational number 1/3.
\<close>

theorem calculate_jaccard_third_is_not_exact:
  "calculate_jaccard {|1, 2, 3|} {|1, 4, 5::nat|}
     = Inr (6004799503160661 / 18014398509481984) \<and>
   calculate_jaccard {|1, 2, 3|} {|1, 4, 5::nat|}
     \<noteq> Inr (rat_of_nat (fcard ({|1, 2, 3|} |\<inter>| {|1, 4, 5::nat|}))
            / rat_of_nat (min (fcard {|1, 2, 3::nat|}) (fcard {|1, 4, 5::nat|})))"
  by (simp add: calculate_jaccard_def fcard_eval round_eval)

text \<open>
  C5 (as the code has it). With an empty set as either argument the scorer raises
  Python's \<open>ZeroDivisionError\<close>, whatever the other argument holds; it never returns a
  number there.
\<close>

theorem empty_set_raises_ZeroDivisionError:
  "calculate_jaccard {||} s = Inl ZeroDivisionError \<and>
   calculate_jaccard s {||} = Inl ZeroDivisionError"
  by (simp add: calculate_jaccard_def fcard_eval)

text \<open>
  C5, as the specification words it, fails: the error raised for an empty gene set is
  the division failure, not \<open>InvalidInput\<close>.
\<close>

theorem empty_set_error_is_not_InvalidInput:
  "calculate_jaccard {||} {|1::nat|} = Inl ZeroDivisionError \<and>
   calculate_jaccard {||} {|1::nat|} \<noteq> Inl InvalidInput"
  by (simp add: calculate_jaccard_def fcard_eval)

text \<open>
  C7. The overlap score does not depend on the order of its arguments, and the score of
  a non-empty set with itself is 1.
\<close>

theorem calculate_jaccard_symmetric_reflexive:
  "(s1 \<noteq> {||} \<longrightarrow> s2 \<noteq> {||} \<longrightarrow> calculate_jaccard s1 s2 = calculate_jaccard s2 s1) \<and>
   (s \<noteq> {||} \<longrightarrow> calculate_jaccard s s = Inr 1)"
  by (simp add: calculate_jaccard_def Let_def min.commute inf_commute fcard_0_eq
      round_to_double_1)

theorem calculate_jaccard_symmetric_reflexive_witness:
  "calculate_jaccard {|1, 2, 3|} {|3, 4::nat|} = Inr (1 / 2) \<and>
   calculate_jaccard {|3, 4|} {|1, 2, 3::nat|} = Inr (1 / 2) \<and>
   calculate_jaccard {|7::nat|} {|7|} = Inr 1"
  using calculate_jaccard_symmetric_reflexive [of "{|1, 2, 3|}" "{|3, 4::nat|}" "{|7::nat|}"]
  by (simp add: calculate_jaccard_def fcard_eval round_eval)

section \<open>Properties of the similarity engine\<close>

subsection \<open>Pairs of a list\<close>

lemma combinations2_members:
  "(x, y) \<in> set (combinations2 xs) \<Longrightarrow> x \<in> set xs \<and> y \<in> set xs"
  by (induction xs) auto

lemma combinations2_map:
  "combinations2 (map f xs) = map (map_prod f f) (combinations2 xs)"
  by (induction xs) auto

lemma distinct_combinations2:
  "distinct xs \<Longrightarrow> distinct (combinations2 xs)"
  by (induction xs) (auto simp: distinct_map inj_on_def dest: combinations2_members)

lemma combinations2_no_self:
  "distinct xs \<Longrightarrow> (x, x) \<notin> set (combinations2 xs)"
  by (induction xs) (auto dest: combinations2_members)

lemma combinations2_one_way:
  "distinct xs \<Longrightarrow> (x, y) \<in> set (combinations2 xs) \<Longrightarrow> (y, x) \<notin> set (combinations2 xs)"
  by (induction xs) (auto dest: combinations2_members)

lemma combinations2_total:
  "x \<in> set xs \<Longrightarrow> y \<in> set xs \<Longrightarrow> x \<noteq> y \<Longrightarrow>
   (x, y) \<in> set (combinations2 xs) \<or> (y, x) \<in> set (combinations2 xs)"
  by (induction xs) auto

lemma combinations2_short: "length xs \<le> 1 \<Longrightarrow> combinations2 xs = []"
  by (cases xs) auto

subsection \<open>Loading\<close>

lemma length_update_le: "length (AList.update k v al) \<le> Suc (length al)"
  by (induction al) auto

lemma load_managers_length:
  "length (fst (load_managers managers database mappings)) \<le>
   length database + length (filter (\<lambda>nm. is_populated (snd nm)) managers)"
proof (induction managers database mappings rule: load_managers.induct)
  case (1 database mappings)
  then show ?case by simp
next
  case (2 name manager rest database mappings)
  show ?case
  proof (cases "is_populated manager")
    case False
    with 2 show ?thesis by simp
  next
    case True
    with "2.IH"(2) length_update_le [of name "get_pathway_id_to_symbols manager" database]
    show ?thesis by simp
  qed
qed

lemma update_fresh: "k \<notin> fst ` set al \<Longrightarrow> AList.update k v al = al @ [(k, v)]"
  by (induction al) auto

lemma load_managers_distinct:
  "distinct (map fst database @ map fst managers) \<Longrightarrow>
   distinct (map fst mappings @ map fst managers) \<Longrightarrow>
   load_managers managers database mappings =
     (database @ map (\<lambda>nm. (fst nm, get_pathway_id_to_symbols (snd nm)))
                   (filter (\<lambda>nm. is_populated (snd nm)) managers),
      mappings @ map (\<lambda>nm. (fst nm, get_pathway_id_name_mapping (snd nm)))
                   (filter (\<lambda>nm. is_populated (snd nm)) managers))"
proof (induction managers database mappings rule: load_managers.induct)
  case (1 database mappings)
  then show ?case by simp
next
  case (2 name manager rest database mappings)
  show ?case
  proof (cases "is_populated manager")
    case False
    with 2 show ?thesis by simp
  next
    case True
    from "2.prems" have fresh: "name \<notin> fst ` set database" "name \<notin> fst ` set mappings"
      by auto
    from "2.prems" fresh have
      "distinct (map fst (AList.update name (get_pathway_id_to_symbols manager) database) @ map fst rest)"
      "distinct (map fst (AList.update name (get_pathway_id_name_mapping manager) mappings) @ map fst rest)"
      by (auto simp: update_fresh)
    with "2.IH"(2) True fresh show ?thesis
      by (simp add: update_fresh)
  qed
qed

subsection \<open>The inner loop\<close>

lemma collect_rows_set:
  "collect_rows body it rows = Inr out \<Longrightarrow>
   set out = set rows \<union> {r. \<exists>x\<in>set it. body x = Inr (Some r)}"
  by (induction body it rows rule: collect_rows.induct)
     (auto split: sum.splits option.splits)

lemma collect_rows_no_error:
  "collect_rows body it rows = Inr out \<Longrightarrow> x \<in> set it \<Longrightarrow> \<exists>r. body x = Inr r"
  by (induction body it rows rule: collect_rows.induct)
     (auto split: sum.splits option.splits)

lemma collect_rows_error:
  "collect_rows body it rows = Inl e \<Longrightarrow> \<exists>x\<in>set it. body x = Inl e"
  by (induction body it rows rule: collect_rows.induct)
     (auto split: sum.splits option.splits)

lemma collect_rows_fewer:
  assumes "collect_rows body1 it rows1 = Inr out1"
    and "length rows2 \<le> length rows1"
    and "\<And>x. body1 x = Inr None \<Longrightarrow> body2 x = Inr None"
    and "\<And>x r. body1 x = Inr (Some r) \<Longrightarrow> body2 x = Inr None \<or> body2 x = Inr (Some r)"
  shows "\<exists>out2. collect_rows body2 it rows2 = Inr out2 \<and> length out2 \<le> length out1"
  using assms(1,2)
proof (induction it arbitrary: rows1 rows2)
  case Nil
  then show ?case by simp
next
  case (Cons x it)
  show ?case
  proof (cases "body1 x")
    case (Inl e)
    with Cons.prems show ?thesis by simp
  next
    case (Inr r1)
    show ?thesis
    proof (cases r1)
      case None
      with Inr have "body2 x = Inr None" by (simp add: assms(3))
      with Cons Inr None show ?thesis by simp
    next
      case (Some r)
      with Inr have b1: "body1 x = Inr (Some r)" by simp
      with Cons.prems have run: "collect_rows body1 it (rows1 @ [r]) = Inr out1" by simp
      from assms(4) [OF b1] show ?thesis
      proof
        assume "body2 x = Inr None"
        moreover from Cons.prems have "length rows2 \<le> length (rows1 @ [r])" by simp
        ultimately show ?thesis using Cons.IH [OF run] by simp
      next
        assume "body2 x = Inr (Some r)"
        moreover from Cons.prems have "length (rows2 @ [r]) \<le> length (rows1 @ [r])" by simp
        ultimately show ?thesis using Cons.IH [OF run] by simp
      qed
    qed
  qed
qed

lemma score_row_Some:
  "score_row ratio mg ms a_name b_name a_mappings b_mappings ((pa, sa), (pb, sb)) = Inr (Some r) \<longleftrightarrow>
   (\<exists>g na nb. calculate_jaccard sa sb = Inr g \<and> mg \<le> g \<and> ms \<le> ratio a_name b_name \<and>
      a_mappings pa = Some na \<and> b_mappings pb = Some nb \<and>
      r = (pa, na, pb, nb, g, ratio a_name b_name))"
  by (auto simp: score_row_def Let_def split: sum.splits option.splits)

lemma score_row_None:
  "score_row ratio mg ms a_name b_name a_mappings b_mappings ((pa, sa), (pb, sb)) = Inr None \<longleftrightarrow>
   (\<exists>g. calculate_jaccard sa sb = Inr g \<and> (g < mg \<or> ratio a_name b_name < ms))"
  by (auto simp: score_row_def Let_def split: sum.splits option.splits)

lemma score_row_error:
  "score_row ratio mg ms a_name b_name a_mappings b_mappings ((pa, sa), (pb, sb)) = Inl e \<longleftrightarrow>
   (calculate_jaccard sa sb = Inl e \<or>
    (\<exists>g. calculate_jaccard sa sb = Inr g \<and> mg \<le> g \<and> ms \<le> ratio a_name b_name \<and>
      e = KeyError \<and> (a_mappings pa = None \<or> b_mappings pb = None)))"
  by (auto simp: score_row_def Let_def split: sum.splits option.splits)

subsection \<open>Sorting\<close>

lemma row_ge_key: "row_ge r1 r2 \<longleftrightarrow> row_key r2 \<le> row_key r1"
  by (auto simp: row_ge_def row_key_def split: prod.splits)

lemma sort_values_sorted: "sorted_wrt row_ge (df_rows (sort_values df))"
proof -
  have "sorted (map row_key (sort_key row_key (rev (df_rows df))))"
    by (rule sorted_sort_key)
  then have "sorted_wrt (\<lambda>r1 r2. row_key r1 \<le> row_key r2) (sort_key row_key (rev (df_rows df)))"
    by (simp add: sorted_map)
  then have "sorted_wrt (\<lambda>r1 r2. row_key r2 \<le> row_key r1) (rev (sort_key row_key (rev (df_rows df))))"
    by (simp add: sorted_wrt_rev)
  then show ?thesis
    by (simp add: sort_values_def row_ge_key [abs_def])
qed

lemma sort_values_set: "set (df_rows (sort_values df)) = set (df_rows df)"
  by (simp add: sort_values_def)

lemma sort_values_length: "length (df_rows (sort_values df)) = length (df_rows df)"
  by (simp add: sort_values_def)

subsection \<open>One comparison pair\<close>

lemma similarity_report_Inr:
  assumes "similarity_report ratio mg ms mappings a b = Inr df"
  obtains a_mappings b_mappings rows where
    "map_of mappings (fst a) = Some a_mappings"
    "map_of mappings (fst b) = Some b_mappings"
    "collect_rows (score_row ratio mg ms (fst a) (fst b) a_mappings b_mappings)
       (List.product (snd a) (snd b)) [] = Inr rows"
    "df = sort_values
       \<lparr>df_columns = [fst a @ ''_id'', fst a @ ''_name'', fst b @ ''_id'', fst b @ ''_name'',
                      ''gene_set_similarity'', ''string_similarity''],
        df_rows = rows\<rparr>"
  using assms
  by (cases a; cases b) (auto simp: similarity_report_def split: option.splits sum.splits)

lemma similarity_report_sorted:
  "similarity_report ratio mg ms mappings a b = Inr df \<Longrightarrow> sorted_wrt row_ge (df_rows df)"
  by (erule similarity_report_Inr) (simp add: sort_values_sorted)

lemma similarity_report_rows:
  assumes "similarity_report ratio mg ms mappings a b = Inr df"
    and "map_of mappings (fst a) = Some a_mappings"
    and "map_of mappings (fst b) = Some b_mappings"
  shows "set (df_rows df) =
     {(pa, na, pb, nb, g, s). \<exists>sa sb. (pa, sa) \<in> set (snd a) \<and> (pb, sb) \<in> set (snd b) \<and>
        calculate_jaccard sa sb = Inr g \<and> s = ratio (fst a) (fst b) \<and> mg \<le> g \<and> ms \<le> s \<and>
        a_mappings pa = Some na \<and> b_mappings pb = Some nb}"
  using assms(1)
proof (rule similarity_report_Inr)
  fix am bm rows
  assume am: "map_of mappings (fst a) = Some am" and bm: "map_of mappings (fst b) = Some bm"
    and run: "collect_rows (score_row ratio mg ms (fst a) (fst b) am bm)
       (List.product (snd a) (snd b)) [] = Inr rows"
    and df: "df = sort_values
       \<lparr>df_columns = [fst a @ ''_id'', fst a @ ''_name'', fst b @ ''_id'', fst b @ ''_name'',
                      ''gene_set_similarity'', ''string_similarity''],
        df_rows = rows\<rparr>"
  from am bm assms(2,3) have [simp]: "am = a_mappings" "bm = b_mappings" by simp_all
  from df have "set (df_rows df) = set rows" by (simp add: sort_values_set)
  also from run have "\<dots> = {r. \<exists>x\<in>set (List.product (snd a) (snd b)).
      score_row ratio mg ms (fst a) (fst b) a_mappings b_mappings x = Inr (Some r)}"
    by (simp add: collect_rows_set)
  also have "\<dots> = {r. \<exists>pa sa pb sb. (pa, sa) \<in> set (snd a) \<and> (pb, sb) \<in> set (snd b) \<and>
      score_row ratio mg ms (fst a) (fst b) a_mappings b_mappings ((pa, sa), (pb, sb)) = Inr (Some r)}"
    by auto
  also have "\<dots> = {(pa, na, pb, nb, g, s). \<exists>sa sb. (pa, sa) \<in> set (snd a) \<and> (pb, sb) \<in> set (snd b) \<and>
        calculate_jaccard sa sb = Inr g \<and> s = ratio (fst a) (fst b) \<and> mg \<le> g \<and> ms \<le> s \<and>
        a_mappings pa = Some na \<and> b_mappings pb = Some nb}"
    unfolding score_row_Some by blast
  finally show ?thesis .
qed

lemma similarity_report_scores:
  assumes "similarity_report ratio mg ms mappings a b = Inr df"
    and "(pa, sa) \<in> set (snd a)" and "(pb, sb) \<in> set (snd b)"
  shows "\<exists>g. calculate_jaccard sa sb = Inr g"
  using assms(1)
proof (rule similarity_report_Inr)
  fix am bm rows
  assume "collect_rows (score_row ratio mg ms (fst a) (fst b) am bm)
       (List.product (snd a) (snd b)) [] = Inr rows"
  moreover from assms(2,3) have "((pa, sa), (pb, sb)) \<in> set (List.product (snd a) (snd b))"
    by simp
  ultimately obtain r where
    "score_row ratio mg ms (fst a) (fst b) am bm ((pa, sa), (pb, sb)) = Inr r"
    by (blast dest: collect_rows_no_error)
  then show ?thesis
    by (cases r) (auto simp: score_row_Some score_row_None)
qed

lemma similarity_report_fewer:
  assumes "similarity_report ratio mg1 ms mappings a b = Inr df1" and "mg1 \<le> mg2"
  shows "\<exists>df2. similarity_report ratio mg2 ms mappings a b = Inr df2 \<and>
           length (df_rows df2) \<le> length (df_rows df1)"
  using assms(1)
proof (rule similarity_report_Inr)
  fix am bm rows
  assume am: "map_of mappings (fst a) = Some am" and bm: "map_of mappings (fst b) = Some bm"
    and run: "collect_rows (score_row ratio mg1 ms (fst a) (fst b) am bm)
       (List.product (snd a) (snd b)) [] = Inr rows"
    and df: "df1 = sort_values
       \<lparr>df_columns = [fst a @ ''_id'', fst a @ ''_name'', fst b @ ''_id'', fst b @ ''_name'',
                      ''gene_set_similarity'', ''string_similarity''],
        df_rows = rows\<rparr>"
  have "\<exists>out2. collect_rows (score_row ratio mg2 ms (fst a) (fst b) am bm)
       (List.product (snd a) (snd b)) [] = Inr out2 \<and> length out2 \<le> length rows"
  proof (rule collect_rows_fewer [OF run])
    show "length ([]::'a row list) \<le> length ([]::'a row list)" by simp
  next
    fix x :: "('a \<times> 'b fset) \<times> ('a \<times> 'b fset)"
    assume "score_row ratio mg1 ms (fst a) (fst b) am bm x = Inr None"
    with \<open>mg1 \<le> mg2\<close> show "score_row ratio mg2 ms (fst a) (fst b) am bm x = Inr None"
      by (cases x) (auto simp: score_row_None)
  next
    fix x :: "('a \<times> 'b fset) \<times> ('a \<times> 'b fset)" and r
    assume "score_row ratio mg1 ms (fst a) (fst b) am bm x = Inr (Some r)"
    then show "score_row ratio mg2 ms (fst a) (fst b) am bm x = Inr None \<or>
               score_row ratio mg2 ms (fst a) (fst b) am bm x = Inr (Some r)"
      by (cases x) (auto simp: score_row_def Let_def split: sum.splits option.splits if_splits)
  qed
  then obtain out2 where
    "collect_rows (score_row ratio mg2 ms (fst a) (fst b) am bm)
       (List.product (snd a) (snd b)) [] = Inr out2" "length out2 \<le> length rows"
    by blast
  with am bm df show ?thesis
    by (cases a; cases b) (simp add: similarity_report_def sort_values_length)
qed

lemma similarity_report_Inl:
  assumes "similarity_report ratio mg ms mappings a b = Inl e"
  shows "(e = KeyError \<and> (map_of mappings (fst a) = None \<or> map_of mappings (fst b) = None)) \<or>
    (\<exists>a_mappings b_mappings pa sa pb sb. map_of mappings (fst a) = Some a_mappings \<and>
       map_of mappings (fst b) = Some b_mappings \<and> (pa, sa) \<in> set (snd a) \<and> (pb, sb) \<in> set (snd b) \<and>
       score_row ratio mg ms (fst a) (fst b) a_mappings b_mappings ((pa, sa), (pb, sb)) = Inl e)"
proof (cases "map_of mappings (fst a) = None \<or> map_of mappings (fst b) = None")
  case True
  with assms show ?thesis
    by (cases a; cases b) (auto simp: similarity_report_def split: option.splits)
next
  case False
  then obtain am bm where
    am: "map_of mappings (fst a) = Some am" and bm: "map_of mappings (fst b) = Some bm"
    by auto
  with assms have "collect_rows (score_row ratio mg ms (fst a) (fst b) am bm)
      (List.product (snd a) (snd b)) [] = Inl e"
    by (cases a; cases b) (auto simp: similarity_report_def split: sum.splits)
  then obtain x where x: "x \<in> set (List.product (snd a) (snd b))"
    "score_row ratio mg ms (fst a) (fst b) am bm x = Inl e"
    by (blast dest: collect_rows_error)
  obtain pa sa pb sb where "x = ((pa, sa), (pb, sb))"
    by (metis surj_pair)
  with x have "(pa, sa) \<in> set (snd a) \<and> (pb, sb) \<in> set (snd b) \<and>
      score_row ratio mg ms (fst a) (fst b) am bm ((pa, sa), (pb, sb)) = Inl e"
    by simp
  with am bm show ?thesis by blast
qed

subsection \<open>The loop over the comparison pairs\<close>

lemma set_update_subset: "set (AList.update k v al) \<subseteq> insert (k, v) (set al)"
  by (induction al) auto

lemma pairs_loop_entries:
  "pairs_loop ratio directory mg ms mappings ps fs rv = (fs', Inr rv') \<Longrightarrow>
   (k, df) \<in> set rv' \<Longrightarrow>
   (k, df) \<in> set rv \<or>
   (\<exists>a b. (a, b) \<in> set ps \<and> k = (fst a, fst b) \<and>
      similarity_report ratio mg ms mappings a b = Inr df)"
proof (induction ps arbitrary: fs rv)
  case Nil
  then show ?case by simp
next
  case (Cons p ps)
  obtain a b where p: "p = (a, b)" by (cases p)
  from Cons.prems(1) p obtain df0 where
    rep: "similarity_report ratio mg ms mappings a b = Inr df0" and
    run: "pairs_loop ratio directory mg ms mappings ps
            (to_csv (path_join directory (fst a @ ''_'' @ fst b @ ''.tsv'')) df0 fs)
            (AList.update (fst a, fst b) df0 rv) = (fs', Inr rv')"
    by (auto split: sum.splits)
  from Cons.IH [OF run Cons.prems(2)] show ?case
  proof
    assume "(k, df) \<in> set (AList.update (fst a, fst b) df0 rv)"
    with set_update_subset [of "(fst a, fst b)" df0 rv]
    have "(k, df) = ((fst a, fst b), df0) \<or> (k, df) \<in> set rv" by auto
    then show ?thesis
    proof
      assume "(k, df) = ((fst a, fst b), df0)"
      with rep p have "(a, b) \<in> set (p # ps) \<and> k = (fst a, fst b) \<and>
          similarity_report ratio mg ms mappings a b = Inr df"
        by simp
      then show ?thesis by blast
    next
      assume "(k, df) \<in> set rv"
      then show ?thesis by simp
    qed
  next
    assume "\<exists>a b. (a, b) \<in> set ps \<and> k = (fst a, fst b) \<and>
      similarity_report ratio mg ms mappings a b = Inr df"
    then show ?thesis by auto
  qed
qed

lemma pairs_loop_keys:
  "pairs_loop ratio directory mg ms mappings ps fs rv = (fs', Inr rv') \<Longrightarrow>
   fst ` set rv' = fst ` set rv \<union> (\<lambda>(a, b). (fst a, fst b)) ` set ps \<and>
   (distinct (map fst rv) \<longrightarrow> distinct (map fst rv'))"
proof (induction ps arbitrary: fs rv)
  case Nil
  then show ?case by simp
next
  case (Cons p ps)
  obtain a b where p: "p = (a, b)" by (cases p)
  from Cons.prems(1) p obtain df0 where
    run: "pairs_loop ratio directory mg ms mappings ps
            (to_csv (path_join directory (fst a @ ''_'' @ fst b @ ''.tsv'')) df0 fs)
            (AList.update (fst a, fst b) df0 rv) = (fs', Inr rv')"
    by (auto split: sum.splits)
  from Cons.IH [OF run] p show ?case
    by (auto simp: dom_update distinct_update)
qed

lemma pairs_loop_append:
  "pairs_loop ratio directory mg ms mappings ps1 fs rv = (fs1, Inr rv1) \<Longrightarrow>
   pairs_loop ratio directory mg ms mappings (ps1 @ ps2) fs rv =
   pairs_loop ratio directory mg ms mappings ps2 fs1 rv1"
  by (induction ps1 arbitrary: fs rv) (auto split: sum.splits)

lemma pairs_loop_error:
  "pairs_loop ratio directory mg ms mappings ps fs rv = (fs', Inl e) \<Longrightarrow>
   \<exists>ps1 a b ps2 rv1. ps = ps1 @ (a, b) # ps2 \<and>
     pairs_loop ratio directory mg ms mappings ps1 fs rv = (fs', Inr rv1) \<and>
     similarity_report ratio mg ms mappings a b = Inl e"
proof (induction ps arbitrary: fs rv)
  case Nil
  then show ?case by simp
next
  case (Cons p ps)
  obtain a b where p: "p = (a, b)" by (cases p)
  show ?case
  proof (cases "similarity_report ratio mg ms mappings a b")
    case (Inl e0)
    with Cons.prems p have "fs' = fs" "e0 = e" by simp_all
    with Inl p have "p # ps = [] @ (a, b) # ps \<and>
        pairs_loop ratio directory mg ms mappings [] fs rv = (fs', Inr rv) \<and>
        similarity_report ratio mg ms mappings a b = Inl e"
      by simp
    then show ?thesis by blast
  next
    case (Inr df0)
    let ?fs = "to_csv (path_join directory (fst a @ ''_'' @ fst b @ ''.tsv'')) df0 fs"
    let ?rv = "AList.update (fst a, fst b) df0 rv"
    from Cons.prems p Inr have
      "pairs_loop ratio directory mg ms mappings ps ?fs ?rv = (fs', Inl e)" by simp
    from Cons.IH [OF this] obtain ps1 a' b' ps2 rv1 where
      "ps = ps1 @ (a', b') # ps2"
      "pairs_loop ratio directory mg ms mappings ps1 ?fs ?rv = (fs', Inr rv1)"
      "similarity_report ratio mg ms mappings a' b' = Inl e"
      by blast
    with p Inr have "p # ps = (p # ps1) @ (a', b') # ps2 \<and>
        pairs_loop ratio directory mg ms mappings (p # ps1) fs rv = (fs', Inr rv1) \<and>
        similarity_report ratio mg ms mappings a' b' = Inl e"
      by simp
    then show ?thesis by blast
  qed
qed

lemma pairs_loop_stops:
  "pairs_loop ratio directory mg ms mappings ps1 fs rv = (fs1, Inr rv1) \<Longrightarrow>
   similarity_report ratio mg ms mappings a b = Inl e \<Longrightarrow>
   pairs_loop ratio directory mg ms mappings (ps1 @ (a, b) # ps2) fs rv = (fs1, Inl e)"
  by (simp add: pairs_loop_append)

lemma update_related:
  assumes "list_all2 (\<lambda>e2 e1. fst e2 = fst e1 \<and> P (snd e2) (snd e1)) rv2 rv1" and "P v2 v1"
  shows "list_all2 (\<lambda>e2 e1. fst e2 = fst e1 \<and> P (snd e2) (snd e1))
           (AList.update k v2 rv2) (AList.update k v1 rv1)"
  using assms(1) by (induction rule: list_all2_induct) (auto simp: assms(2))

lemma pairs_loop_fewer:
  assumes "mg1 \<le> mg2"
  shows "pairs_loop ratio directory mg1 ms mappings ps fs1 rv1 = (fs1', Inr rv1') \<Longrightarrow>
   list_all2 (\<lambda>e2 e1. fst e2 = fst e1 \<and> length (df_rows (snd e2)) \<le> length (df_rows (snd e1))) rv2 rv1 \<Longrightarrow>
   \<exists>fs2' rv2'. pairs_loop ratio directory mg2 ms mappings ps fs2 rv2 = (fs2', Inr rv2') \<and>
     list_all2 (\<lambda>e2 e1. fst e2 = fst e1 \<and> length (df_rows (snd e2)) \<le> length (df_rows (snd e1))) rv2' rv1'"
proof (induction ps arbitrary: fs1 rv1 fs2 rv2)
  case Nil
  then show ?case by simp
next
  case (Cons p ps)
  obtain a b where p: "p = (a, b)" by (cases p)
  from Cons.prems(1) p obtain df1 where
    rep1: "similarity_report ratio mg1 ms mappings a b = Inr df1" and
    run1: "pairs_loop ratio directory mg1 ms mappings ps
            (to_csv (path_join directory (fst a @ ''_'' @ fst b @ ''.tsv'')) df1 fs1)
            (AList.update (fst a, fst b) df1 rv1) = (fs1', Inr rv1')"
    by (auto split: sum.splits)
  from similarity_report_fewer [OF rep1 assms] obtain df2 where
    rep2: "similarity_report ratio mg2 ms mappings a b = Inr df2" and
    le: "length (df_rows df2) \<le> length (df_rows df1)"
    by blast
  from Cons.prems(2) le have
    "list_all2 (\<lambda>e2 e1. fst e2 = fst e1 \<and> length (df_rows (snd e2)) \<le> length (df_rows (snd e1)))
       (AList.update (fst a, fst b) df2 rv2) (AList.update (fst a, fst b) df1 rv1)"
    by (rule update_related)
  from Cons.IH [OF run1 this] p rep2 show ?case by simp
qed

subsection \<open>The whole run\<close>

lemma make_similarity_matricies_distinct:
  assumes "distinct (map fst managers)"
  shows "make_similarity_matricies ratio managers fs directory mg ms =
    pairs_loop ratio directory mg ms
      (map (\<lambda>nm. (fst nm, get_pathway_id_name_mapping (snd nm)))
         (filter (\<lambda>nm. is_populated (snd nm)) managers))
      (combinations2 (map (\<lambda>nm. (fst nm, get_pathway_id_to_symbols (snd nm)))
         (filter (\<lambda>nm. is_populated (snd nm)) managers)))
      (makedirs directory fs) []"
  using load_managers_distinct [of "[]" managers "[]"] assms
  by (simp add: make_similarity_matricies_def)

lemma populated_names_distinct:
  "distinct (map fst managers) \<Longrightarrow>
   distinct (map fst (filter (\<lambda>nm. is_populated (snd nm)) managers))"
  by (simp add: distinct_map_filter)

lemma populated_lookup:
  assumes "distinct (map fst managers)" and "(name, m) \<in> set managers" and "is_populated m"
  shows "map_of (map (\<lambda>nm. (fst nm, f (snd nm))) (filter (\<lambda>nm. is_populated (snd nm)) managers)) name
         = Some (f m)"
proof -
  let ?P = "filter (\<lambda>nm. is_populated (snd nm)) managers"
  have "map fst (map (\<lambda>nm. (fst nm, f (snd nm))) ?P) = map fst ?P"
    by simp
  with populated_names_distinct [OF assms(1)]
  have "distinct (map fst (map (\<lambda>nm. (fst nm, f (snd nm))) ?P))" by (simp add: comp_def)
  moreover from assms(2,3) have "(name, f m) \<in> set (map (\<lambda>nm. (fst nm, f (snd nm))) ?P)"
    by force
  ultimately show ?thesis by (rule map_of_is_SomeI)
qed

subsection \<open>The example runs\<close>

lemmas example_defs = example_ratio_def example_fs_def source_X_def source_Y_def source_Z_def
  source_W_def source_V_def example_managers_def failing_managers_def
lemmas run_defs = make_similarity_matricies_def similarity_report_def score_row_def
  calculate_jaccard_def fcard_eval round_eval makedirs_def to_csv_def path_join_def sort_values_def
  row_key_def

lemma example_run:
  "snd (make_similarity_matricies example_ratio example_managers example_fs ''out'' (1 / 2) 0)
   = Inr example_reports"
  by (simp add: example_defs run_defs example_reports_def)

lemma run_result: "snd r = x \<Longrightarrow> r = (fst r, x)"
  by auto

lemma example_names_distinct: "distinct (map fst example_managers)"
  by (simp add: example_managers_def)

subsection \<open>The claims on the engine\<close>

text \<open>
  C2. In a run that returns, take the report of a comparison pair \<open>(A, B)\<close> and any
  pathway of \<open>A\<close> with any pathway of \<open>B\<close>. Their gene set similarity \<open>g\<close> is
  defined, and the report holds a row for the two pathways with that score exactly when
  \<open>g\<close> is at least the gene set threshold and the string similarity of the two source
  names is at least the string threshold; below either threshold there is no row.
\<close>

theorem report_rows_pass_both_thresholds:
  assumes "distinct (map fst managers)"
    and "make_similarity_matricies ratio managers fs directory mg ms = (fs', Inr rv)"
    and "((a_name, b_name), df) \<in> set rv"
    and "(a_name, ma) \<in> set managers" and "(b_name, mb) \<in> set managers"
    and "(pa, sa) \<in> set (get_pathway_id_to_symbols ma)"
    and "(pb, sb) \<in> set (get_pathway_id_to_symbols mb)"
  shows "\<exists>g. calculate_jaccard sa sb = Inr g \<and>
           ((\<exists>na nb. (pa, na, pb, nb, g, ratio a_name b_name) \<in> set (df_rows df)) \<longleftrightarrow>
            mg \<le> g \<and> ms \<le> ratio a_name b_name)"
proof -
  let ?P = "filter (\<lambda>nm. is_populated (snd nm)) managers"
  let ?db = "map (\<lambda>nm. (fst nm, get_pathway_id_to_symbols (snd nm))) ?P"
  let ?mp = "map (\<lambda>nm. (fst nm, get_pathway_id_name_mapping (snd nm))) ?P"
  from assms(1,2) have
    "pairs_loop ratio directory mg ms ?mp (combinations2 ?db) (makedirs directory fs) [] = (fs', Inr rv)"
    by (simp add: make_similarity_matricies_distinct)
  from pairs_loop_entries [OF this assms(3)] obtain a b where
    ab: "(a, b) \<in> set (combinations2 ?db)" and names: "a_name = fst a" "b_name = fst b" and
    rep: "similarity_report ratio mg ms ?mp a b = Inr df"
    by auto
  from ab have "a \<in> set ?db" "b \<in> set ?db"
    by (auto dest: combinations2_members)
  then obtain ma' mb' where
    a: "a = (a_name, get_pathway_id_to_symbols ma')" "(a_name, ma') \<in> set managers" "is_populated ma'" and
    b: "b = (b_name, get_pathway_id_to_symbols mb')" "(b_name, mb') \<in> set managers" "is_populated mb'"
    using names by auto
  from assms(1,4) a(2) have "ma' = ma" by (meson eq_key_imp_eq_value)
  moreover from assms(1,5) b(2) have "mb' = mb" by (meson eq_key_imp_eq_value)
  ultimately have a': "a = (a_name, get_pathway_id_to_symbols ma)" "is_populated ma"
    and b': "b = (b_name, get_pathway_id_to_symbols mb)" "is_populated mb"
    using a b by simp_all
  have am: "map_of ?mp (fst a) = Some (get_pathway_id_name_mapping ma)"
    using populated_lookup [OF assms(1,4) a'(2)] a'(1) by simp
  have bm: "map_of ?mp (fst b) = Some (get_pathway_id_name_mapping mb)"
    using populated_lookup [OF assms(1,5) b'(2)] b'(1) by simp
  from assms(6,7) a'(1) b'(1) have mem: "(pa, sa) \<in> set (snd a)" "(pb, sb) \<in> set (snd b)"
    by simp_all
  from similarity_report_scores [OF rep mem] obtain g where g: "calculate_jaccard sa sb = Inr g"
    by blast
  have lookups: "\<exists>na nb. get_pathway_id_name_mapping ma pa = Some na \<and>
      get_pathway_id_name_mapping mb pb = Some nb"
    if pass: "mg \<le> g" "ms \<le> ratio a_name b_name"
  proof -
    from rep obtain rows where run:
      "collect_rows (score_row ratio mg ms (fst a) (fst b) (get_pathway_id_name_mapping ma)
          (get_pathway_id_name_mapping mb)) (List.product (snd a) (snd b)) [] = Inr rows"
      using am bm by (auto elim!: similarity_report_Inr)
    from mem have "((pa, sa), (pb, sb)) \<in> set (List.product (snd a) (snd b))" by simp
    from collect_rows_no_error [OF run this] obtain r where
      "score_row ratio mg ms (fst a) (fst b) (get_pathway_id_name_mapping ma)
          (get_pathway_id_name_mapping mb) ((pa, sa), (pb, sb)) = Inr r"
      by blast
    with g pass names show ?thesis
      by (cases r) (auto simp: score_row_Some score_row_None)
  qed
  note rows = similarity_report_rows [OF rep am bm]
  have "(\<exists>na nb. (pa, na, pb, nb, g, ratio a_name b_name) \<in> set (df_rows df)) \<longleftrightarrow>
            mg \<le> g \<and> ms \<le> ratio a_name b_name"
  proof
    assume "\<exists>na nb. (pa, na, pb, nb, g, ratio a_name b_name) \<in> set (df_rows df)"
    then show "mg \<le> g \<and> ms \<le> ratio a_name b_name"
      unfolding rows using names by auto
  next
    assume pass: "mg \<le> g \<and> ms \<le> ratio a_name b_name"
    with lookups obtain na nb where
      "get_pathway_id_name_mapping ma pa = Some na" "get_pathway_id_name_mapping mb pb = Some nb"
      by blast
    with pass g mem names have "(pa, na, pb, nb, g, ratio a_name b_name) \<in> set (df_rows df)"
      unfolding rows by auto
    then show "\<exists>na nb. (pa, na, pb, nb, g, ratio a_name b_name) \<in> set (df_rows df)"
      by blast
  qed
  with g show ?thesis by blast
qed

theorem report_rows_pass_both_thresholds_witness:
  "distinct (map fst example_managers) \<and>
   snd (make_similarity_matricies example_ratio example_managers example_fs ''out'' (1 / 2) 0)
     = Inr example_reports \<and>
   (\<exists>df. ((''X'', ''Y''), df) \<in> set example_reports \<and>
     (\<exists>g. calculate_jaccard {|1, 2, 3|} {|1, 2, 5, 6::nat|} = Inr g \<and>
        ((\<exists>na nb. (2, na, 2, nb, g, example_ratio ''X'' ''Y'') \<in> set (df_rows df)) \<longleftrightarrow>
         1 / 2 \<le> g \<and> 0 \<le> example_ratio ''X'' ''Y'')) \<and>
     (\<exists>g. calculate_jaccard {|1, 2, 3|} {|7, 8::nat|} = Inr g \<and>
        ((\<exists>na nb. (2, na, 3, nb, g, example_ratio ''X'' ''Y'') \<in> set (df_rows df)) \<longleftrightarrow>
         1 / 2 \<le> g \<and> 0 \<le> example_ratio ''X'' ''Y'')))"
proof -
  let ?df = "snd (hd example_reports)"
  have run: "make_similarity_matricies example_ratio example_managers example_fs ''out'' (1 / 2) 0
     = (fst (make_similarity_matricies example_ratio example_managers example_fs ''out'' (1 / 2) 0),
        Inr example_reports)"
    by (rule run_result [OF example_run])
  have entry: "((''X'', ''Y''), ?df) \<in> set example_reports"
    by (simp add: example_reports_def)
  have X: "(''X'', source_X) \<in> set example_managers" and Y: "(''Y'', source_Y) \<in> set example_managers"
    by (simp_all add: example_managers_def)
  have x2: "(2, {|1, 2, 3|}) \<in> set (get_pathway_id_to_symbols source_X)"
    by (simp add: source_X_def)
  have y2: "(2, {|1, 2, 5, 6|}) \<in> set (get_pathway_id_to_symbols source_Y)"
    and y3: "(3, {|7, 8|}) \<in> set (get_pathway_id_to_symbols source_Y)"
    by (simp_all add: source_Y_def)
  from report_rows_pass_both_thresholds [OF example_names_distinct run entry X Y x2 y2]
    report_rows_pass_both_thresholds [OF example_names_distinct run entry X Y x2 y3]
    entry example_names_distinct example_run
  show ?thesis by blast
qed

text \<open>
  C3. With distinct source names, the keys of the returned mapping are pairwise distinct,
  every key is a pair of two different populated sources, never together with its
  reversal, and every two different populated sources have a key in one of the two
  orders.
\<close>

theorem report_keys_unordered_pairs:
  assumes "distinct (map fst managers)"
    and "make_similarity_matricies ratio managers fs directory mg ms = (fs', Inr rv)"
  shows "distinct (map fst rv) \<and>
    (\<forall>A B. (A, B) \<in> fst ` set rv \<longrightarrow>
       A \<in> fst ` {nm \<in> set managers. is_populated (snd nm)} \<and>
       B \<in> fst ` {nm \<in> set managers. is_populated (snd nm)} \<and>
       A \<noteq> B \<and> (B, A) \<notin> fst ` set rv) \<and>
    (\<forall>A \<in> fst ` {nm \<in> set managers. is_populated (snd nm)}.
     \<forall>B \<in> fst ` {nm \<in> set managers. is_populated (snd nm)}.
       A \<noteq> B \<longrightarrow> (A, B) \<in> fst ` set rv \<or> (B, A) \<in> fst ` set rv)"
proof -
  let ?P = "filter (\<lambda>nm. is_populated (snd nm)) managers"
  let ?db = "map (\<lambda>nm. (fst nm, get_pathway_id_to_symbols (snd nm))) ?P"
  let ?mp = "map (\<lambda>nm. (fst nm, get_pathway_id_name_mapping (snd nm))) ?P"
  let ?names = "map fst ?P"
  from assms have
    "pairs_loop ratio directory mg ms ?mp (combinations2 ?db) (makedirs directory fs) [] = (fs', Inr rv)"
    by (simp add: make_similarity_matricies_distinct)
  from pairs_loop_keys [OF this] have
    keys: "fst ` set rv = (\<lambda>(a, b). (fst a, fst b)) ` set (combinations2 ?db)"
    and dist: "distinct (map fst rv)"
    by simp_all
  have "combinations2 ?names = map (map_prod fst fst) (combinations2 ?db)"
    using combinations2_map [of fst ?db] by (simp add: comp_def)
  then have "set (combinations2 ?names) = (\<lambda>(a, b). (fst a, fst b)) ` set (combinations2 ?db)"
    by (auto simp: map_prod_def)
  with keys have keys': "fst ` set rv = set (combinations2 ?names)" by simp
  have names: "set ?names = fst ` {nm \<in> set managers. is_populated (snd nm)}" by auto
  have d: "distinct ?names" by (rule populated_names_distinct [OF assms(1)])
  show ?thesis
    unfolding keys' names [symmetric]
    using dist d combinations2_members [of _ _ ?names] combinations2_no_self [OF d]
      combinations2_one_way [OF d] combinations2_total [of _ ?names]
    by blast
qed

theorem report_keys_unordered_pairs_witness:
  "distinct (map fst example_managers) \<and>
   snd (make_similarity_matricies example_ratio example_managers example_fs ''out'' (1 / 2) 0)
     = Inr example_reports \<and>
   distinct (map fst example_reports) \<and>
   (''X'', ''Y'') \<in> fst ` set example_reports \<and>
   ''X'' \<in> fst ` {nm \<in> set example_managers. is_populated (snd nm)} \<and>
   ''Y'' \<in> fst ` {nm \<in> set example_managers. is_populated (snd nm)} \<and>
   ''X'' \<noteq> ''Y'' \<and>
   (''Y'', ''X'') \<notin> fst ` set example_reports"
proof -
  have key: "(''X'', ''Y'') \<in> fst ` set example_reports"
    by (simp add: example_reports_def)
  from report_keys_unordered_pairs [OF example_names_distinct run_result [OF example_run]]
    key example_names_distinct example_run
  show ?thesis by blast
qed

text \<open>
  C4. Every report of a run that returns is sorted: a row never stands after a row that
  is greater in the descending order on first pathway identifier, then gene set
  similarity.
\<close>

theorem reports_sorted:
  assumes "make_similarity_matricies ratio managers fs directory mg ms = (fs', Inr rv)"
    and "(k, df) \<in> set rv"
  shows "sorted_wrt row_ge (df_rows df)"
proof -
  obtain database mappings where "load_managers managers [] [] = (database, mappings)"
    by (cases "load_managers managers [] []")
  with assms(1) have
    "pairs_loop ratio directory mg ms mappings (combinations2 database) (makedirs directory fs) []
       = (fs', Inr rv)"
    by (simp add: make_similarity_matricies_def)
  from pairs_loop_entries [OF this assms(2)] have
    "\<exists>a b. (a, b) \<in> set (combinations2 database) \<and> k = (fst a, fst b) \<and>
       similarity_report ratio mg ms mappings a b = Inr df"
    by simp
  then obtain a b where "(a, b) \<in> set (combinations2 database)"
    and rep: "similarity_report ratio mg ms mappings a b = Inr df"
    by blast
  from rep show ?thesis by (rule similarity_report_sorted)
qed

theorem reports_sorted_witness:
  "snd (make_similarity_matricies example_ratio example_managers example_fs ''out'' (1 / 2) 0)
     = Inr example_reports \<and>
   sorted_wrt row_ge
     [(2::nat, ''x2'', 1::nat, ''y1'', 1::rat, 0::rat),
      (2, ''x2'', 2, ''y2'', 6004799503160661 / 9007199254740992, 0),
      (1, ''x1'', 1, ''y1'', 1, 0), (1, ''x1'', 2, ''y2'', 1, 0)]"
proof -
  have "(fst (hd example_reports), snd (hd example_reports)) \<in> set example_reports"
    by (simp add: example_reports_def)
  from reports_sorted [OF run_result [OF example_run] this] example_run
  show ?thesis by (simp add: example_reports_def)
qed

text \<open>
  C6. With everything else fixed, raise the gene set threshold from \<open>mg1\<close> to \<open>mg2\<close>.
  If the run at \<open>mg1\<close> returns, the run at \<open>mg2\<close> returns too, with the same keys in
  the same order, and no report has more rows than at \<open>mg1\<close>.
\<close>

theorem row_count_antitone:
  assumes "make_similarity_matricies ratio managers fs directory mg1 ms = (fs1, Inr rv1)"
    and "mg1 \<le> mg2"
  shows "\<exists>fs2 rv2. make_similarity_matricies ratio managers fs directory mg2 ms = (fs2, Inr rv2) \<and>
    list_all2 (\<lambda>e2 e1. fst e2 = fst e1 \<and> length (df_rows (snd e2)) \<le> length (df_rows (snd e1)))
      rv2 rv1"
proof -
  obtain database mappings where load: "load_managers managers [] [] = (database, mappings)"
    by (cases "load_managers managers [] []")
  with assms(1) have
    "pairs_loop ratio directory mg1 ms mappings (combinations2 database) (makedirs directory fs) []
       = (fs1, Inr rv1)"
    by (simp add: make_similarity_matricies_def)
  from pairs_loop_fewer [OF assms(2) this, of "[]" "makedirs directory fs"] load
  show ?thesis by (simp add: make_similarity_matricies_def)
qed

theorem row_count_antitone_witness:
  "snd (make_similarity_matricies example_ratio example_managers example_fs ''out'' (1 / 2) 0)
     = Inr example_reports \<and> (1 / 2 :: rat) \<le> 1 \<and>
   (\<exists>fs2 rv2.
      make_similarity_matricies example_ratio example_managers example_fs ''out'' 1 0 = (fs2, Inr rv2) \<and>
      list_all2 (\<lambda>e2 e1. fst e2 = fst e1 \<and> length (df_rows (snd e2)) \<le> length (df_rows (snd e1)))
        rv2 example_reports)"
proof -
  have "(1 / 2 :: rat) \<le> 1" by simp
  from row_count_antitone [OF run_result [OF example_run] this] example_run this
  show ?thesis by blast
qed

text \<open>
  C8. With no populated source, or only one, the run returns the empty mapping without
  an error; it creates the output directory and writes no file.
\<close>

theorem at_most_one_source_no_reports:
  assumes "length (filter (\<lambda>nm. is_populated (snd nm)) managers) \<le> 1"
  shows "make_similarity_matricies ratio managers fs directory mg ms
           = (makedirs directory fs, Inr []) \<and>
         files (makedirs directory fs) = files fs"
proof -
  obtain database mappings where load: "load_managers managers [] [] = (database, mappings)"
    by (cases "load_managers managers [] []")
  from load_managers_length [of managers "[]" "[]"] load assms have "length database \<le> 1"
    by simp
  then have "combinations2 database = []" by (rule combinations2_short)
  with load show ?thesis
    by (simp add: make_similarity_matricies_def makedirs_def)
qed

theorem at_most_one_source_no_reports_witness:
  "length (filter (\<lambda>nm. is_populated (snd nm)) [(''X'', source_X), (''Z'', source_Z)]) \<le> 1 \<and>
   make_similarity_matricies example_ratio [(''X'', source_X), (''Z'', source_Z)]
     example_fs ''out'' (1 / 2) 0 = (makedirs ''out'' example_fs, Inr []) \<and>
   files (makedirs ''out'' example_fs) = files example_fs"
proof -
  have "length (filter (\<lambda>nm. is_populated (snd nm)) [(''X'', source_X), (''Z'', source_Z)]) \<le> 1"
    by (simp add: source_X_def source_Z_def)
  from at_most_one_source_no_reports [OF this] this show ?thesis by blast
qed

text \<open>
  C9. Display names are looked up only for pathway pairs that pass both thresholds: if
  every pathway of such a pair has a display name in its own source, the run raises no
  \<open>KeyError\<close>, whatever names are missing for the other pathways.
\<close>

theorem no_lookup_error_when_passing_rows_named:
  assumes "distinct (map fst managers)"
    and "\<forall>a b pa sa pb sb g.
       (a, b) \<in> set (combinations2 (filter (\<lambda>nm. is_populated (snd nm)) managers)) \<longrightarrow>
       (pa, sa) \<in> set (get_pathway_id_to_symbols (snd a)) \<longrightarrow>
       (pb, sb) \<in> set (get_pathway_id_to_symbols (snd b)) \<longrightarrow>
       calculate_jaccard sa sb = Inr g \<longrightarrow> mg \<le> g \<longrightarrow> ms \<le> ratio (fst a) (fst b) \<longrightarrow>
       get_pathway_id_name_mapping (snd a) pa \<noteq> None \<and>
       get_pathway_id_name_mapping (snd b) pb \<noteq> None"
  shows "snd (make_similarity_matricies ratio managers fs directory mg ms) \<noteq> Inl KeyError"
proof
  let ?P = "filter (\<lambda>nm. is_populated (snd nm)) managers"
  let ?f = "\<lambda>nm. (fst nm, get_pathway_id_to_symbols (snd nm))"
  let ?db = "map ?f ?P"
  let ?mp = "map (\<lambda>nm. (fst nm, get_pathway_id_name_mapping (snd nm))) ?P"
  assume "snd (make_similarity_matricies ratio managers fs directory mg ms) = Inl KeyError"
  with assms(1) obtain fs' where
    "pairs_loop ratio directory mg ms ?mp (combinations2 ?db) (makedirs directory fs) []
       = (fs', Inl KeyError)"
    by (cases "make_similarity_matricies ratio managers fs directory mg ms")
       (simp add: make_similarity_matricies_distinct)
  from pairs_loop_error [OF this] obtain ps1 a b ps2 where
    dec: "combinations2 ?db = ps1 @ (a, b) # ps2" and
    rep: "similarity_report ratio mg ms ?mp a b = Inl KeyError"
    by blast
  from dec have ab: "(a, b) \<in> set (combinations2 ?db)" by simp
  from ab have "(a, b) \<in> set (map (map_prod ?f ?f) (combinations2 ?P))"
    by (simp add: combinations2_map)
  then obtain x y where xy: "(x, y) \<in> set (combinations2 ?P)" and
    a: "a = ?f x" and b: "b = ?f y"
    by auto
  from xy have "x \<in> set ?P" "y \<in> set ?P" by (auto dest: combinations2_members)
  then have x: "(fst x, snd x) \<in> set managers" "is_populated (snd x)"
    and y: "(fst y, snd y) \<in> set managers" "is_populated (snd y)"
    by simp_all
  have am: "map_of ?mp (fst a) = Some (get_pathway_id_name_mapping (snd x))"
    using populated_lookup [OF assms(1) x] a by simp
  have bm: "map_of ?mp (fst b) = Some (get_pathway_id_name_mapping (snd y))"
    using populated_lookup [OF assms(1) y] b by simp
  from similarity_report_Inl [OF rep] am bm obtain pa sa pb sb where
    mem: "(pa, sa) \<in> set (snd a)" "(pb, sb) \<in> set (snd b)" and
    err: "score_row ratio mg ms (fst a) (fst b) (get_pathway_id_name_mapping (snd x))
            (get_pathway_id_name_mapping (snd y)) ((pa, sa), (pb, sb)) = Inl KeyError"
    by auto
  from err obtain g where g: "calculate_jaccard sa sb = Inr g" "mg \<le> g"
      "ms \<le> ratio (fst a) (fst b)" and
    missing: "get_pathway_id_name_mapping (snd x) pa = None \<or>
              get_pathway_id_name_mapping (snd y) pb = None"
    unfolding score_row_error by (auto dest: calculate_jaccard_error)
  from mem a b have mem': "(pa, sa) \<in> set (get_pathway_id_to_symbols (snd x))"
    "(pb, sb) \<in> set (get_pathway_id_to_symbols (snd y))"
    by simp_all
  from g(3) a b have "ms \<le> ratio (fst x) (fst y)" by simp
  from assms(2) [rule_format, OF xy mem' g(1,2) this] missing show False by auto
qed

theorem no_lookup_error_when_passing_rows_named_witness:
  "distinct (map fst example_managers) \<and>
   get_pathway_id_name_mapping source_Y 3 = None \<and>
   snd (make_similarity_matricies example_ratio example_managers example_fs ''out'' (1 / 2) 0)
     \<noteq> Inl KeyError"
proof -
  have named: "\<forall>a b pa sa pb sb g.
       (a, b) \<in> set (combinations2 (filter (\<lambda>nm. is_populated (snd nm)) example_managers)) \<longrightarrow>
       (pa, sa) \<in> set (get_pathway_id_to_symbols (snd a)) \<longrightarrow>
       (pb, sb) \<in> set (get_pathway_id_to_symbols (snd b)) \<longrightarrow>
       calculate_jaccard sa sb = Inr g \<longrightarrow> 1 / 2 \<le> g \<longrightarrow> 0 \<le> example_ratio (fst a) (fst b) \<longrightarrow>
       get_pathway_id_name_mapping (snd a) pa \<noteq> None \<and>
       get_pathway_id_name_mapping (snd b) pb \<noteq> None"
    by (auto simp: example_defs calculate_jaccard_def fcard_eval round_eval)
  have "get_pathway_id_name_mapping source_Y 3 = None"
    by (simp add: source_Y_def)
  with no_lookup_error_when_passing_rows_named [OF example_names_distinct named]
    example_names_distinct
  show ?thesis by simp
qed

text \<open>
  C10. A run raises \<open>e\<close> exactly when the table of some comparison pair raises \<open>e\<close>
  after all earlier pairs were computed; nothing is returned, and the file system left
  behind is the one the earlier pairs left: the failing pair writes nothing.
\<close>

theorem failing_pair_writes_nothing:
  "make_similarity_matricies ratio managers fs directory mg ms = (fs', Inl e) \<longleftrightarrow>
   (\<exists>ps1 a b ps2 rv1.
      combinations2 (fst (load_managers managers [] [])) = ps1 @ (a, b) # ps2 \<and>
      pairs_loop ratio directory mg ms (snd (load_managers managers [] [])) ps1
        (makedirs directory fs) [] = (fs', Inr rv1) \<and>
      similarity_report ratio mg ms (snd (load_managers managers [] [])) a b = Inl e)"
proof -
  obtain database mappings where load: "load_managers managers [] [] = (database, mappings)"
    by (cases "load_managers managers [] []")
  have run: "make_similarity_matricies ratio managers fs directory mg ms =
    pairs_loop ratio directory mg ms mappings (combinations2 database) (makedirs directory fs) []"
    using load by (simp add: make_similarity_matricies_def)
  show ?thesis
    unfolding run load fst_conv snd_conv
  proof
    assume "pairs_loop ratio directory mg ms mappings (combinations2 database)
        (makedirs directory fs) [] = (fs', Inl e)"
    from pairs_loop_error [OF this]
    show "\<exists>ps1 a b ps2 rv1. combinations2 database = ps1 @ (a, b) # ps2 \<and>
        pairs_loop ratio directory mg ms mappings ps1 (makedirs directory fs) [] = (fs', Inr rv1) \<and>
        similarity_report ratio mg ms mappings a b = Inl e" .
  next
    assume "\<exists>ps1 a b ps2 rv1. combinations2 database = ps1 @ (a, b) # ps2 \<and>
        pairs_loop ratio directory mg ms mappings ps1 (makedirs directory fs) [] = (fs', Inr rv1) \<and>
        similarity_report ratio mg ms mappings a b = Inl e"
    then obtain ps1 a b ps2 rv1 where
      "combinations2 database = ps1 @ (a, b) # ps2"
      "pairs_loop ratio directory mg ms mappings ps1 (makedirs directory fs) [] = (fs', Inr rv1)"
      "similarity_report ratio mg ms mappings a b = Inl e"
      by blast
    then show "pairs_loop ratio directory mg ms mappings (combinations2 database)
        (makedirs directory fs) [] = (fs', Inl e)"
      by (simp add: pairs_loop_stops)
  qed
qed

theorem failing_pair_writes_nothing_witness:
  "make_similarity_matricies example_ratio failing_managers example_fs ''out'' (1 / 2) 0
     = (to_csv ''out/X_Y.tsv'' (snd (hd example_reports)) (makedirs ''out'' example_fs),
        Inl ZeroDivisionError) \<and>
   files (to_csv ''out/X_Y.tsv'' (snd (hd example_reports)) (makedirs ''out'' example_fs))
     ''out/X_V.tsv'' = None"
proof -
  let ?X = "(''X'', get_pathway_id_to_symbols source_X)"
  let ?Y = "(''Y'', get_pathway_id_to_symbols source_Y)"
  let ?V = "(''V'', get_pathway_id_to_symbols source_V)"
  let ?fs = "to_csv ''out/X_Y.tsv'' (snd (hd example_reports)) (makedirs ''out'' example_fs)"
  have pairs: "combinations2 (fst (load_managers failing_managers [] []))
      = [(?X, ?Y)] @ (?X, ?V) # [(?Y, ?V)]"
    by (simp add: example_defs)
  have earlier: "pairs_loop example_ratio ''out'' (1 / 2) 0 (snd (load_managers failing_managers [] []))
      [(?X, ?Y)] (makedirs ''out'' example_fs) [] = (?fs, Inr [hd example_reports])"
    by (simp add: example_defs run_defs example_reports_def)
  have raises: "similarity_report example_ratio (1 / 2) 0 (snd (load_managers failing_managers [] []))
      ?X ?V = Inl ZeroDivisionError"
    by (simp add: example_defs run_defs)
  from pairs earlier raises have
    "make_similarity_matricies example_ratio failing_managers example_fs ''out'' (1 / 2) 0
       = (?fs, Inl ZeroDivisionError)"
    unfolding failing_pair_writes_nothing by blast
  moreover have "files ?fs ''out/X_V.tsv'' = None"
    by (simp add: to_csv_def makedirs_def example_fs_def)
  ultimately show ?thesis by simp
qed

end
